theory Spec2Isabelle
  imports Complex_Main "HOL-Library.Sublist"
begin

section \<open>The replay pool of \<^verbatim>\<open>src/pool.py\<close>\<close>

text \<open>
  The class \<^verbatim>\<open>Pool\<close> keeps, for every worker, five numpy arrays (state, action,
  next state, reward, done) in five shared lists. An array is modelled by the list of its
  rows along axis 0, so \<^verbatim>\<open>len\<close> is \<open>length\<close>, \<^verbatim>\<open>np.expand_dims(a, axis=0)\<close> is
  \<open>[a]\<close>, \<^verbatim>\<open>np.concatenate((x, y), 0)\<close> is \<open>x @ y\<close> and \<^verbatim>\<open>x[w:]\<close> is a
  \<open>drop\<close>. A list entry is \<open>None\<close> (Python's \<^verbatim>\<open>None\<close>, the segment was never
  written) or \<open>Some\<close> array. Python integers are \<open>int\<close>; the weights of
  \<^verbatim>\<open>inverse_len\<close> are floats in the source and rationals here.
\<close>

subsection \<open>Exceptions and the state\<close>

datatype error = IndexError | TypeError | ValueError | AttributeError | ZeroDivisionError

text \<open>
  The attributes set by \<^verbatim>\<open>__init__\<close>. The source names the window of the periodic
  clearing \<^verbatim>\<open>window_size_\<close>; it is \<open>window_size'\<close> here. \<^verbatim>\<open>store_counter\<close> is
  \<open>None\<close> when the attribute does not exist. A lock is an opaque value; \<^verbatim>\<open>env\<close> is
  an external collaborator and is not part of the state.
\<close>

record 'x Pool =
  processes :: int
  pool_size :: int
  window_size :: "int option"
  clearing_freq :: "int option"
  window_size' :: "int option"
  random :: bool
  state_pool_list :: "'x list option list"
  action_pool_list :: "'x list option list"
  next_state_pool_list :: "'x list option list"
  reward_pool_list :: "'x list option list"
  done_pool_list :: "'x list option list"
  inverse_len :: "rat list"
  lock_list :: "unit list"
  store_counter :: "int list option"

text \<open>
  A method is a function from the state to an outcome and the state it leaves behind. An
  exception keeps the writes made before it: the shared lists are mutated statement by
  statement.
\<close>

type_synonym ('x, 'r) action = "'x Pool \<Rightarrow> (error + 'r) \<times> 'x Pool"

definition ret :: "'r \<Rightarrow> ('x, 'r) action" where
  "ret v st = (Inr v, st)"

definition raise :: "error \<Rightarrow> ('x, 'r) action" where
  "raise e st = (Inl e, st)"

definition lift :: "error + 'r \<Rightarrow> ('x, 'r) action" where
  "lift v st = (v, st)"

text \<open>Reading an attribute of \<^verbatim>\<open>self\<close>.\<close>

definition gets :: "('x Pool \<Rightarrow> 'r) \<Rightarrow> ('x, 'r) action" where
  "gets f st = (Inr (f st), st)"

definition pbind :: "('x, 'a) action \<Rightarrow> ('a \<Rightarrow> ('x, 'b) action) \<Rightarrow> ('x, 'b) action" where
  "pbind m k st = (case m st of (Inl e, st') \<Rightarrow> (Inl e, st') | (Inr v, st') \<Rightarrow> k v st')"

definition pthen :: "('x, unit) action \<Rightarrow> ('x, 'b) action \<Rightarrow> ('x, 'b) action" where
  "pthen m k = pbind m (\<lambda>_. k)"

subsection \<open>Python and numpy primitives\<close>

text \<open>
  \<^verbatim>\<open>xs[index]\<close>: \<^verbatim>\<open>None\<close> is not an index (TypeError), a negative index counts
  from the end, an index out of range raises IndexError.
\<close>

definition py_pos :: "'a list \<Rightarrow> int \<Rightarrow> nat option" where
  "py_pos xs i =
     (if 0 \<le> i \<and> i < int (length xs) then Some (nat i)
      else if i < 0 \<and> - int (length xs) \<le> i then Some (nat (int (length xs) + i))
      else None)"

definition get_item :: "'a list \<Rightarrow> int option \<Rightarrow> error + 'a" where
  "get_item xs index =
     (case index of
        None \<Rightarrow> Inl TypeError
      | Some i \<Rightarrow> (case py_pos xs i of None \<Rightarrow> Inl IndexError | Some k \<Rightarrow> Inr (xs ! k)))"

definition set_item :: "'a list \<Rightarrow> int option \<Rightarrow> 'a \<Rightarrow> error + 'a list" where
  "set_item xs index v =
     (case index of
        None \<Rightarrow> Inl TypeError
      | Some i \<Rightarrow> (case py_pos xs i of None \<Rightarrow> Inl IndexError | Some k \<Rightarrow> Inr (xs[k := v])))"

text \<open>\<^verbatim>\<open>np.concatenate((x, y), 0)\<close> rejects \<^verbatim>\<open>None\<close> (a zero-dimensional operand).\<close>

definition np_concatenate :: "'x list option \<Rightarrow> 'x list \<Rightarrow> error + 'x list" where
  "np_concatenate x y = (case x of None \<Rightarrow> Inl ValueError | Some xs \<Rightarrow> Inr (xs @ y))"

text \<open>
  \<^verbatim>\<open>x[w:]\<close>: \<^verbatim>\<open>None\<close> is not subscriptable; \<^verbatim>\<open>w = None\<close> keeps everything, a
  negative \<^verbatim>\<open>w\<close> keeps the last \<^verbatim>\<open>-w\<close> rows, and a \<^verbatim>\<open>w\<close> beyond the length
  leaves the empty array.
\<close>

definition py_slice_from :: "'x list option \<Rightarrow> int option \<Rightarrow> error + 'x list" where
  "py_slice_from x w =
     (case x of
        None \<Rightarrow> Inl TypeError
      | Some xs \<Rightarrow>
          Inr (case w of
                 None \<Rightarrow> xs
               | Some k \<Rightarrow> if 0 \<le> k then drop (nat k) xs else drop (length xs - nat (- k)) xs))"

definition py_len :: "'x list option \<Rightarrow> error + int" where
  "py_len x = (case x of None \<Rightarrow> Inl TypeError | Some xs \<Rightarrow> Inr (int (length xs)))"

text \<open>
  \<^verbatim>\<open>math.ceil(a / b)\<close> on integers. \<^verbatim>\<open>a / b\<close> raises ZeroDivisionError for
  \<^verbatim>\<open>b = 0\<close>; otherwise it is the float nearest to the exact quotient, or OverflowError
  when the quotient is beyond the floats. Operands of absolute value up to \<open>2 ^ 53\<close> are
  floats themselves, and a quotient of two of them that is not an integer lies at least
  \<open>1 / \<bar>b\<bar>\<close> above the integer below it, more than half the distance between
  neighbouring floats there: the rounding does not reach that integer, and the ceiling is
  the one of the exact quotient, \<open>- ((- a) div b)\<close>. For larger operands the outcome, the
  ceiling of the rounded quotient or OverflowError, is a function of the operands of which
  nothing is known here: \<open>float_ceil_div\<close>.
\<close>

definition float_ceil_div :: "int \<Rightarrow> int \<Rightarrow> error + int" where
  "float_ceil_div = (SOME f. True)"

definition ceil_div :: "int \<Rightarrow> int \<Rightarrow> error + int" where
  "ceil_div a b =
     (if b = 0 then Inl ZeroDivisionError
      else if \<bar>a\<bar> \<le> 2 ^ 53 \<and> \<bar>b\<bar> \<le> 2 ^ 53 then Inr (- ((- a) div b))
      else float_ceil_div a b)"

subsection \<open>The five shared lists\<close>

datatype field = State | Action | Next_state | Reward | Done

fun field_list :: "field \<Rightarrow> 'x Pool \<Rightarrow> 'x list option list" where
  "field_list State st = state_pool_list st"
| "field_list Action st = action_pool_list st"
| "field_list Next_state st = next_state_pool_list st"
| "field_list Reward st = reward_pool_list st"
| "field_list Done st = done_pool_list st"

fun field_update :: "field \<Rightarrow> 'x list option list \<Rightarrow> 'x Pool \<Rightarrow> 'x Pool" where
  "field_update State l st = st\<lparr>state_pool_list := l\<rparr>"
| "field_update Action l st = st\<lparr>action_pool_list := l\<rparr>"
| "field_update Next_state l st = st\<lparr>next_state_pool_list := l\<rparr>"
| "field_update Reward l st = st\<lparr>reward_pool_list := l\<rparr>"
| "field_update Done l st = st\<lparr>done_pool_list := l\<rparr>"

text \<open>\<^verbatim>\<open>self.<f>_pool_list[index]\<close>, read and written.\<close>

definition get_field :: "field \<Rightarrow> int option \<Rightarrow> ('x, 'x list option) action" where
  "get_field f index st = (get_item (field_list f st) index, st)"

definition set_field :: "field \<Rightarrow> int option \<Rightarrow> 'x list option \<Rightarrow> ('x, unit) action" where
  "set_field f index v st =
     (case set_item (field_list f st) index v of
        Inl e \<Rightarrow> (Inl e, st)
      | Inr l \<Rightarrow> (Inr (), field_update f l st))"

text \<open>\<^verbatim>\<open>self.inverse_len[index] = w\<close>.\<close>

definition set_inverse_len :: "int option \<Rightarrow> rat \<Rightarrow> ('x, unit) action" where
  "set_inverse_len index w st =
     (case set_item (inverse_len st) index w of
        Inl e \<Rightarrow> (Inl e, st)
      | Inr l \<Rightarrow> (Inr (), st\<lparr>inverse_len := l\<rparr>))"

text \<open>\<^verbatim>\<open>self.store_counter[index]\<close>, read and written; the attribute may be missing.\<close>

definition get_store_counter :: "int option \<Rightarrow> ('x, int) action" where
  "get_store_counter index st =
     (case store_counter st of
        None \<Rightarrow> (Inl AttributeError, st)
      | Some cs \<Rightarrow> (get_item cs index, st))"

definition set_store_counter :: "int option \<Rightarrow> int \<Rightarrow> ('x, unit) action" where
  "set_store_counter index c st =
     (case store_counter st of
        None \<Rightarrow> (Inl AttributeError, st)
      | Some cs \<Rightarrow>
          (case set_item cs index c of
             Inl e \<Rightarrow> (Inl e, st)
           | Inr l \<Rightarrow> (Inr (), st\<lparr>store_counter := Some l\<rparr>)))"

subsection \<open>\<^verbatim>\<open>__init__\<close>\<close>

text \<open>
  Lines 8 to 24. The five lists start as \<^verbatim>\<open>manager.list()\<close>, the empty list;
  \<^verbatim>\<open>inverse_len\<close> and \<^verbatim>\<open>lock_list\<close> get one entry for each of
  \<^verbatim>\<open>range(processes)\<close>; \<^verbatim>\<open>store_counter\<close>, when \<^verbatim>\<open>clearing_freq\<close> is given, is
  again the empty list.
\<close>

definition init :: "int \<Rightarrow> int \<Rightarrow> int option \<Rightarrow> int option \<Rightarrow> int option \<Rightarrow> bool \<Rightarrow> 'x Pool" where
  "init procs psize w cf w' rnd =
     \<lparr>processes = procs, pool_size = psize, window_size = w, clearing_freq = cf,
      window_size' = w', random = rnd,
      state_pool_list = [], action_pool_list = [], next_state_pool_list = [],
      reward_pool_list = [], done_pool_list = [],
      inverse_len = replicate (nat procs) 0,
      lock_list = replicate (nat procs) (),
      store_counter = (if cf \<noteq> None then Some [] else None)\<rparr>"

subsection \<open>\<^verbatim>\<open>pool\<close>: append, periodic clearing, capacity check\<close>

text \<open>
  \<^verbatim>\<open>self.<f>_pool_list[index] = np.concatenate((self.<f>_pool_list[index], v), 0)\<close>
\<close>

definition append_field :: "field \<Rightarrow> int option \<Rightarrow> 'x list \<Rightarrow> ('x, unit) action" where
  "append_field f index v =
     pbind (get_field f index) (\<lambda>old.
     pbind (lift (np_concatenate old v)) (\<lambda>new.
     set_field f index (Some new)))"

text \<open>
  Lines 27 to 38. The state \<^verbatim>\<open>s\<close> arrives with its leading axis (the driver expands
  it) and is stored as it is; the other four values are expanded here. In the
  \<^verbatim>\<open>else\<close> branch line 38 reads \<^verbatim>\<open>self.done_pool[7]\<close>; the class has no attribute
  \<^verbatim>\<open>done_pool\<close>, so the read raises AttributeError after lines 34 to 37 have
  written.
\<close>

definition pool_append ::
  "'x list \<Rightarrow> 'x \<Rightarrow> 'x \<Rightarrow> 'x \<Rightarrow> 'x \<Rightarrow> int option \<Rightarrow> ('x, unit) action" where
  "pool_append s a next_s r done index =
     pbind (get_field State index) (\<lambda>cur.
       if cur = None then
         pthen (set_field State index (Some s))
        (pthen (set_field Action index (Some [a]))
        (pthen (set_field Next_state index (Some [next_s]))
        (pthen (set_field Reward index (Some [r]))
               (set_field Done index (Some [done])))))
       else
         pthen (append_field State index s)
        (pthen (append_field Action index [a])
        (pthen (append_field Next_state index [next_s])
        (pthen (append_field Reward index [r])
               (raise AttributeError)))))"

text \<open>
  \<^verbatim>\<open>self.<f>_pool_list[index] = self.<f>_pool_list[index][w:]\<close>, and the same statement
  for the five lists in the source's order.
\<close>

definition slice_field :: "field \<Rightarrow> int option \<Rightarrow> int option \<Rightarrow> ('x, unit) action" where
  "slice_field f index w =
     pbind (get_field f index) (\<lambda>old.
     pbind (lift (py_slice_from old w)) (\<lambda>new.
     set_field f index (Some new)))"

definition slice_all :: "int option \<Rightarrow> int option \<Rightarrow> ('x, unit) action" where
  "slice_all index w =
     pthen (slice_field State index w)
    (pthen (slice_field Action index w)
    (pthen (slice_field Next_state index w)
    (pthen (slice_field Reward index w)
           (slice_field Done index w))))"

text \<open>
  Lines 39 to 46. \<^verbatim>\<open>self.store_counter[index] += 1\<close> reads, adds and writes; the
  test \<^verbatim>\<open>% self.clearing_freq\<close> raises ZeroDivisionError for a frequency of 0 (Python's
  \<^verbatim>\<open>%\<close> on integers is \<open>mod\<close>).
\<close>

definition pool_clear :: "int option \<Rightarrow> ('x, unit) action" where
  "pool_clear index =
     pbind (gets clearing_freq) (\<lambda>freq.
       case freq of
         None \<Rightarrow> ret ()
       | Some cf \<Rightarrow>
           pthen (pbind (get_store_counter index) (\<lambda>c. set_store_counter index (c + 1)))
          (pbind (get_store_counter index) (\<lambda>c.
             if cf = 0 then raise ZeroDivisionError
             else if c mod cf = 0 then pbind (gets window_size') (slice_all index)
             else ret ())))"

text \<open>Lines 47 to 59: one test, one truncation, no loop.\<close>

definition pool_capacity :: "int option \<Rightarrow> ('x, unit) action" where
  "pool_capacity index =
     pbind (get_field State index) (\<lambda>cur.
     pbind (lift (py_len cur)) (\<lambda>n.
     pbind (gets pool_size) (\<lambda>size_all.
     pbind (gets processes) (\<lambda>procs.
     pbind (lift (ceil_div size_all procs)) (\<lambda>cap.
       if n > cap then
         pbind (gets window_size) (\<lambda>w.
           if w \<noteq> None then slice_all index w else slice_all index (Some 1))
       else ret ())))))"

text \<open>The eviction policy is the two truncation stages, in the source's order.\<close>

definition pool_evict :: "int option \<Rightarrow> ('x, unit) action" where
  "pool_evict index = pthen (pool_clear index) (pool_capacity index)"

definition pool ::
  "'x list \<Rightarrow> 'x \<Rightarrow> 'x \<Rightarrow> 'x \<Rightarrow> 'x \<Rightarrow> int option \<Rightarrow> ('x, unit) action" where
  "pool s a next_s r done index =
     pthen (pool_append s a next_s r done index) (pool_evict index)"

subsection \<open>\<^verbatim>\<open>store_in_parallel\<close>: the driver loop of worker \<open>p\<close>\<close>

text \<open>
  Lines 65 to 75. In the probabilistic mode a worker whose own segment is unset takes its
  own index and sets its weight to 1. Otherwise lines 70 and 71 divide the weights by their
  sum, which gives an array of numpy (for a sum of 0 its entries are \<^verbatim>\<open>nan\<close>, with a
  warning and no exception), and line 72 calls \<^verbatim>\<open>prob.numpy()\<close> on it. An array of
  numpy has no method \<^verbatim>\<open>numpy\<close>: the call raises AttributeError, no index is drawn
  and line 73 is not reached.
\<close>

definition select_index :: "int \<Rightarrow> ('x, int) action" where
  "select_index p =
     pbind (gets random) (\<lambda>rnd.
       if rnd then
         pbind (get_field State (Some p)) (\<lambda>cur.
           if cur = None then pthen (set_inverse_len (Some p) 1) (ret p)
           else raise AttributeError)
       else ret p)"

text \<open>
  One iteration, lines 65 to 84. Lines 76 to 81 call the action selection and the
  environment, which are external: \<open>stepped\<close> is their outcome, the tuple
  \<open>(a, next_s, r, done)\<close> that \<^verbatim>\<open>self.env[p].step\<close> returned or the exception that
  was raised. With the class as it stands that is AttributeError on line 77, for the class
  defines no \<^verbatim>\<open>select_action\<close>; a subclass that supplies it gets the tuple. The result
  lists the indices whose lock was acquired, then the outcome and the state.
\<close>

definition store_step ::
  "int \<Rightarrow> 'x \<Rightarrow> error + 'x \<times> 'x \<times> 'x \<times> 'x \<Rightarrow> 'x Pool
     \<Rightarrow> int list \<times> (error + unit) \<times> 'x Pool" where
  "store_step p s stepped st =
     (case select_index p st of
        (Inl e, st1) \<Rightarrow> ([], Inl e, st1)
      | (Inr index, st1) \<Rightarrow>
          (case stepped of
             Inl e \<Rightarrow> ([], Inl e, st1)
           | Inr (a, next_s, r, done) \<Rightarrow>
               (case get_item (lock_list st1) (Some index) of
                  Inl e \<Rightarrow> ([], Inl e, st1)
                | Inr _ \<Rightarrow>
                    (case pool [s] a next_s r done (Some index) st1 of
                       (out, st2) \<Rightarrow> ([index], out, st2)))))"

text \<open>
  The loop of lines 64 to 87, followed along the outcomes \<open>steps\<close> of the external
  calls, one for each iteration; \<open>truthy\<close> is Python's truth value of the array
  \<^verbatim>\<open>done\<close>. The loop ends with the first exception, with the first true \<^verbatim>\<open>done\<close>,
  or where the list of outcomes ends.
\<close>

fun store_in_parallel ::
  "('x \<Rightarrow> bool) \<Rightarrow> int \<Rightarrow> 'x \<Rightarrow> (error + 'x \<times> 'x \<times> 'x \<times> 'x) list
     \<Rightarrow> 'x Pool \<Rightarrow> int list \<times> (error + unit) \<times> 'x Pool" where
  "store_in_parallel truthy p s [] st = ([], Inr (), st)"
| "store_in_parallel truthy p s (stepped # rest) st =
     (case store_step p s stepped st of
        (locked, Inl e, st') \<Rightarrow> (locked, Inl e, st')
      | (locked, Inr _, st') \<Rightarrow>
          (case stepped of
             Inl e \<Rightarrow> (locked, Inl e, st')
           | Inr (a, next_s, r, done) \<Rightarrow>
               if truthy done then (locked, Inr (), st')
               else (case store_in_parallel truthy p next_s rest st' of
                       (locked', out, st'') \<Rightarrow> (locked @ locked', out, st''))))"

subsection \<open>\<^verbatim>\<open>get_pool\<close>\<close>

text \<open>
  \<^verbatim>\<open>np.concatenate(xs)\<close> over one of the shared lists: it needs at least one array and
  rejects \<^verbatim>\<open>None\<close>.
\<close>

definition concatenate_all :: "'x list option list \<Rightarrow> error + 'x list" where
  "concatenate_all xs =
     (if xs = [] then Inl ValueError
      else (case those xs of None \<Rightarrow> Inl ValueError | Some ys \<Rightarrow> Inr (concat ys)))"

definition get_pool :: "'x Pool \<Rightarrow> error + ('x list \<times> 'x list \<times> 'x list \<times> 'x list \<times> 'x list)" where
  "get_pool st =
     (case concatenate_all (state_pool_list st) of Inl e \<Rightarrow> Inl e | Inr state_pool \<Rightarrow>
     (case concatenate_all (action_pool_list st) of Inl e \<Rightarrow> Inl e | Inr action_pool \<Rightarrow>
     (case concatenate_all (next_state_pool_list st) of Inl e \<Rightarrow> Inl e | Inr next_state_pool \<Rightarrow>
     (case concatenate_all (reward_pool_list st) of Inl e \<Rightarrow> Inl e | Inr reward_pool \<Rightarrow>
     (case concatenate_all (done_pool_list st) of Inl e \<Rightarrow> Inl e | Inr done_pool \<Rightarrow>
        Inr (state_pool, action_pool, next_state_pool, reward_pool, done_pool))))))"

subsection \<open>Relations between the state before and after\<close>

text \<open>
  \<open>same_except k xs ys\<close>: the list \<open>ys\<close> has the length of \<open>xs\<close> and differs from
  it at position \<open>k\<close> at most. \<open>unchanged_except k st st'\<close>: every shared list and the
  store counters differ at position \<open>k\<close> at most, and nothing else has changed.
  \<open>truncated st st'\<close>: every array of \<open>st'\<close> is what is left of the array of
  \<open>st\<close> at the same place once some first rows are removed (\<open>suffix new old\<close> says
  \<open>old = zs @ new\<close> for some \<open>zs\<close>), and \<^verbatim>\<open>None\<close> stays \<^verbatim>\<open>None\<close>.
  \<open>preserves R m\<close>: whatever its outcome, \<open>m\<close> takes a state to an \<open>R\<close>-related one.
\<close>

definition same_except :: "nat \<Rightarrow> 'a list \<Rightarrow> 'a list \<Rightarrow> bool" where
  "same_except k xs ys \<longleftrightarrow> length ys = length xs \<and> (\<forall>j<length xs. j \<noteq> k \<longrightarrow> ys ! j = xs ! j)"

definition unchanged_except :: "nat \<Rightarrow> 'x Pool \<Rightarrow> 'x Pool \<Rightarrow> bool" where
  "unchanged_except k st st' \<longleftrightarrow>
     (\<forall>f. same_except k (field_list f st) (field_list f st')) \<and>
     rel_option (same_except k) (store_counter st) (store_counter st') \<and>
     inverse_len st' = inverse_len st \<and> lock_list st' = lock_list st \<and>
     processes st' = processes st \<and> pool_size st' = pool_size st \<and>
     window_size st' = window_size st \<and> clearing_freq st' = clearing_freq st \<and>
     window_size' st' = window_size' st \<and> random st' = random st"

definition truncated :: "'x Pool \<Rightarrow> 'x Pool \<Rightarrow> bool" where
  "truncated st st' \<longleftrightarrow>
     (\<forall>f. list_all2 (rel_option (\<lambda>old new. suffix new old)) (field_list f st) (field_list f st'))"

definition preserves :: "('x Pool \<Rightarrow> 'x Pool \<Rightarrow> bool) \<Rightarrow> ('x, 'r) action \<Rightarrow> bool" where
  "preserves R m \<longleftrightarrow> (\<forall>st out st'. m st = (out, st') \<longrightarrow> R st st')"

subsection \<open>Example data\<close>

text \<open>
  \<^verbatim>\<open>pool\<close> and \<^verbatim>\<open>store_in_parallel\<close> test \<^verbatim>\<open>self.state_pool_list[index] is None\<close>:
  they are written for lists that hold one \<^verbatim>\<open>None\<close> per worker, and for one counter
  per worker. \<open>populated\<close> is that state: what \<open>init\<close> builds, with the five lists
  filled with \<^verbatim>\<open>None\<close> and the counters with 0. It is the starting point of the
  examples.
\<close>

definition populated :: "int \<Rightarrow> int \<Rightarrow> int option \<Rightarrow> int option \<Rightarrow> int option \<Rightarrow> bool \<Rightarrow> 'x Pool" where
  "populated procs psize w cf w' rnd =
     (init procs psize w cf w' rnd)
       \<lparr>state_pool_list := replicate (nat procs) None,
        action_pool_list := replicate (nat procs) None,
        next_state_pool_list := replicate (nat procs) None,
        reward_pool_list := replicate (nat procs) None,
        done_pool_list := replicate (nat procs) None,
        store_counter := (if cf \<noteq> None then Some (replicate (nat procs) 0) else None)\<rparr>"

section \<open>Properties\<close>

subsection \<open>The relations and the sequencing of statements\<close>

lemma all_field: "(\<forall>f. P f) \<longleftrightarrow> P State \<and> P Action \<and> P Next_state \<and> P Reward \<and> P Done"
  by (metis field.exhaust)

lemma same_except_refl: "same_except k xs xs"
  by (simp add: same_except_def)

lemma same_except_trans: "same_except k xs ys \<Longrightarrow> same_except k ys zs \<Longrightarrow> same_except k xs zs"
  by (simp add: same_except_def)

lemma same_except_update: "same_except k xs (xs[k := v])"
  by (simp add: same_except_def)

lemma unchanged_except_refl: "unchanged_except k st st"
  by (simp add: unchanged_except_def same_except_refl option.rel_refl)

lemma unchanged_except_trans:
  assumes "unchanged_except k a b" and "unchanged_except k b c"
  shows "unchanged_except k a c"
proof -
  have "rel_option (same_except k) (store_counter a) (store_counter c)"
    using assms by (cases "store_counter a"; cases "store_counter b"; cases "store_counter c")
      (auto simp: unchanged_except_def intro: same_except_trans)
  then show ?thesis
    using assms by (auto simp: unchanged_except_def intro: same_except_trans)
qed

lemma suffix_entry_refl: "list_all2 (rel_option (\<lambda>old new. suffix new old)) xs xs"
  by (simp add: list_all2_refl option.rel_refl)

lemma suffix_entry_trans:
  assumes "list_all2 (rel_option (\<lambda>old new. suffix new old)) xs ys"
    and "list_all2 (rel_option (\<lambda>old new. suffix new old)) ys zs"
  shows "list_all2 (rel_option (\<lambda>old new. suffix new old)) xs zs"
proof -
  have "rel_option (\<lambda>old new. suffix new old) a c"
    if "rel_option (\<lambda>old new. suffix new old) a b" "rel_option (\<lambda>old new. suffix new old) b c" for a b c :: "'a list option"
    using that by (cases a; cases b; cases c) (auto intro: suffix_order.trans)
  then show ?thesis
    using assms list_all2_trans by blast
qed

lemma truncated_refl: "truncated st st"
  by (simp add: truncated_def suffix_entry_refl)

lemma truncated_trans: "truncated a b \<Longrightarrow> truncated b c \<Longrightarrow> truncated a c"
  unfolding truncated_def by (blast intro: suffix_entry_trans)

lemma preserves_ret: "(\<And>st. R st st) \<Longrightarrow> preserves R (ret v)"
  by (simp add: preserves_def ret_def)

lemma preserves_raise: "(\<And>st. R st st) \<Longrightarrow> preserves R (raise e)"
  by (simp add: preserves_def raise_def)

lemma preserves_lift: "(\<And>st. R st st) \<Longrightarrow> preserves R (lift v)"
  by (simp add: preserves_def lift_def)

lemma preserves_get_field: "(\<And>st. R st st) \<Longrightarrow> preserves R (get_field f index)"
  by (simp add: preserves_def get_field_def)

lemma preserves_get_store_counter: "(\<And>st. R st st) \<Longrightarrow> preserves R (get_store_counter index)"
  by (auto simp: preserves_def get_store_counter_def split: option.splits)

lemma preserves_pbind:
  assumes "preserves R m" and "\<And>v. preserves R (k v)"
    and "\<And>a b c. R a b \<Longrightarrow> R b c \<Longrightarrow> R a c"
  shows "preserves R (pbind m k)"
  unfolding preserves_def
proof (intro allI impI)
  fix st out st'
  assume run: "pbind m k st = (out, st')"
  obtain o1 st1 where m: "m st = (o1, st1)" by (cases "m st")
  with assms(1) have r1: "R st st1" by (simp add: preserves_def)
  show "R st st'"
  proof (cases o1)
    case (Inl e)
    with run m show ?thesis using r1 by (simp add: pbind_def)
  next
    case (Inr v)
    with run m have "k v st1 = (out, st')" by (simp add: pbind_def)
    with assms(2) have "R st1 st'" by (simp add: preserves_def)
    with r1 show ?thesis by (rule assms(3))
  qed
qed

lemma preserves_pthen:
  assumes "preserves R m" and "preserves R k"
    and "\<And>a b c. R a b \<Longrightarrow> R b c \<Longrightarrow> R a c"
  shows "preserves R (pthen m k)"
  unfolding pthen_def using assms by (intro preserves_pbind) auto

lemma py_pos_nonneg: "0 \<le> i \<Longrightarrow> py_pos xs i = Some k \<Longrightarrow> k = nat i"
  by (auto simp: py_pos_def Let_def split: if_splits)

lemma py_pos_Nil: "py_pos [] i = None"
  by (auto simp: py_pos_def)

lemma py_pos_less: "py_pos xs i = Some k \<Longrightarrow> k < length xs"
  by (auto simp: py_pos_def Let_def split: if_splits)

lemma set_item_same_except:
  "0 \<le> i \<Longrightarrow> set_item xs (Some i) v = Inr ys \<Longrightarrow> same_except (nat i) xs ys"
  by (auto simp: set_item_def same_except_def split: option.splits dest: py_pos_nonneg)

lemma field_list_update:
  "field_list g (field_update f l st) = (if g = f then l else field_list g st)"
  by (cases f; cases g) simp_all

lemma field_list_store_counter_update [simp]:
  "field_list f (st\<lparr>store_counter := c\<rparr>) = field_list f st"
  by (cases f) simp_all

lemma preserves_gets: "(\<And>st. R st st) \<Longrightarrow> preserves R (gets f)"
  by (simp add: preserves_def gets_def)

lemma field_update_other [simp]:
  "store_counter (field_update f l st) = store_counter st"
  "inverse_len (field_update f l st) = inverse_len st"
  "lock_list (field_update f l st) = lock_list st"
  "processes (field_update f l st) = processes st"
  "pool_size (field_update f l st) = pool_size st"
  "window_size (field_update f l st) = window_size st"
  "clearing_freq (field_update f l st) = clearing_freq st"
  "window_size' (field_update f l st) = window_size' st"
  "random (field_update f l st) = random st"
  by (cases f; simp)+

lemma frame_set_field:
  assumes "0 \<le> i"
  shows "preserves (unchanged_except (nat i)) (set_field f (Some i) v)"
  unfolding preserves_def
proof (intro allI impI)
  fix st out st'
  assume run: "set_field f (Some i) v st = (out, st')"
  show "unchanged_except (nat i) st st'"
  proof (cases "set_item (field_list f st) (Some i) v")
    case (Inl e)
    with run show ?thesis by (simp add: set_field_def unchanged_except_refl)
  next
    case (Inr l)
    with run have st': "st' = field_update f l st" by (simp add: set_field_def)
    from assms Inr have "same_except (nat i) (field_list f st) l" by (rule set_item_same_except)
    then show ?thesis
      by (simp add: st' unchanged_except_def field_list_update same_except_refl option.rel_refl)
  qed
qed

lemma frame_set_store_counter:
  assumes "0 \<le> i"
  shows "preserves (unchanged_except (nat i)) (set_store_counter (Some i) c)"
  unfolding preserves_def
proof (intro allI impI)
  fix st :: "'a Pool" and out st'
  assume run: "set_store_counter (Some i) c st = (out, st')"
  show "unchanged_except (nat i) st st'"
  proof (cases "store_counter st")
    case None
    with run show ?thesis by (simp add: set_store_counter_def unchanged_except_refl)
  next
    case (Some cs)
    show ?thesis
    proof (cases "set_item cs (Some i) c")
      case (Inl e)
      with run Some show ?thesis by (simp add: set_store_counter_def unchanged_except_refl)
    next
      case (Inr l)
      with run Some have st': "st' = st\<lparr>store_counter := Some l\<rparr>"
        by (simp add: set_store_counter_def)
      from assms Inr have "same_except (nat i) cs l" by (rule set_item_same_except)
      with Some show ?thesis
        by (simp add: st' unchanged_except_def same_except_refl)
    qed
  qed
qed

lemmas frame_intros =
  preserves_pbind [where R = "unchanged_except k" for k, OF _ _ unchanged_except_trans]
  preserves_pthen [where R = "unchanged_except k" for k, OF _ _ unchanged_except_trans]
  preserves_ret [where R = "unchanged_except k" for k, OF unchanged_except_refl]
  preserves_raise [where R = "unchanged_except k" for k, OF unchanged_except_refl]
  preserves_lift [where R = "unchanged_except k" for k, OF unchanged_except_refl]
  preserves_get_field [where R = "unchanged_except k" for k, OF unchanged_except_refl]
  preserves_gets [where R = "unchanged_except k" for k, OF unchanged_except_refl]
  preserves_get_store_counter [where R = "unchanged_except k" for k, OF unchanged_except_refl]
  frame_set_field frame_set_store_counter

lemma frame_append_field:
  "0 \<le> i \<Longrightarrow> preserves (unchanged_except (nat i)) (append_field f (Some i) v)"
  unfolding append_field_def by (intro frame_intros)

lemma frame_slice_field:
  "0 \<le> i \<Longrightarrow> preserves (unchanged_except (nat i)) (slice_field f (Some i) w)"
  unfolding slice_field_def by (intro frame_intros)

lemma frame_slice_all:
  "0 \<le> i \<Longrightarrow> preserves (unchanged_except (nat i)) (slice_all (Some i) w)"
  unfolding slice_all_def by (intro frame_intros frame_slice_field)

lemma frame_pool_append:
  "0 \<le> i \<Longrightarrow> preserves (unchanged_except (nat i)) (pool_append s a next_s r done (Some i))"
  unfolding pool_append_def
  by (intro frame_intros frame_append_field) (simp_all add: frame_intros frame_append_field)

lemma frame_pool_clear:
  "0 \<le> i \<Longrightarrow> preserves (unchanged_except (nat i)) (pool_clear (Some i))"
  unfolding pool_clear_def
  by (intro frame_intros) (auto split: option.split intro!: frame_intros frame_slice_all)

lemma frame_pool_capacity:
  "0 \<le> i \<Longrightarrow> preserves (unchanged_except (nat i)) (pool_capacity (Some i))"
  unfolding pool_capacity_def
  by (intro frame_intros) (auto intro!: frame_intros frame_slice_all)

lemma frame_pool:
  "0 \<le> i \<Longrightarrow> preserves (unchanged_except (nat i)) (pool s a next_s r done (Some i))"
  unfolding pool_def pool_evict_def
  by (intro frame_intros frame_pool_append frame_pool_clear frame_pool_capacity)

lemma preservesD: "preserves R m \<Longrightarrow> m st = (out, st') \<Longrightarrow> R st st'"
  by (simp add: preserves_def)

lemma py_slice_from_suffix:
  "py_slice_from (Some xs) w = Inr ys \<Longrightarrow> suffix ys xs"
  by (auto simp: py_slice_from_def suffix_drop split: option.splits if_splits)

lemma py_slice_from_None: "py_slice_from None w = Inl TypeError"
  by (simp add: py_slice_from_def)

lemma suffix_entry_update:
  assumes "k < length l" and "l ! k = Some xs" and "suffix ys xs"
  shows "list_all2 (rel_option (\<lambda>old new. suffix new old)) l (l[k := Some ys])"
proof -
  have "list_all2 (rel_option (\<lambda>old new. suffix new old)) (l[k := Some xs]) (l[k := Some ys])"
    using assms(3) by (intro list_all2_update_cong suffix_entry_refl) simp
  moreover have "l[k := Some xs] = l"
    using assms(1,2) by (metis list_update_id)
  ultimately show ?thesis by simp
qed

lemma truncated_slice_field: "preserves truncated (slice_field f index w)"
  unfolding preserves_def
proof (intro allI impI)
  fix st :: "'a Pool" and out st'
  assume run: "slice_field f index w st = (out, st')"
  show "truncated st st'"
  proof (cases "get_item (field_list f st) index")
    case (Inl e)
    with run show ?thesis
      by (simp add: slice_field_def pbind_def get_field_def truncated_refl)
  next
    case (Inr old)
    then obtain i k where idx: "index = Some i" and pos: "py_pos (field_list f st) i = Some k"
      and old: "old = field_list f st ! k"
      by (auto simp: get_item_def split: option.splits)
    show ?thesis
    proof (cases old)
      case None
      with run Inr show ?thesis
        by (simp add: slice_field_def pbind_def get_field_def lift_def py_slice_from_None truncated_refl)
    next
      case (Some xs)
      then obtain ys where sl: "py_slice_from old w = Inr ys"
        by (simp add: py_slice_from_def)
      with Some have suf: "suffix ys xs" by (auto dest: py_slice_from_suffix)
      from run Inr sl idx pos have st': "st' = field_update f ((field_list f st)[k := Some ys]) st"
        by (simp add: slice_field_def pbind_def get_field_def lift_def set_field_def set_item_def)
      have "list_all2 (rel_option (\<lambda>old new. suffix new old)) (field_list f st)
              ((field_list f st)[k := Some ys])"
        using pos old Some suf by (intro suffix_entry_update) (auto dest: py_pos_less)
      then show ?thesis
        by (simp add: st' truncated_def field_list_update suffix_entry_refl)
    qed
  qed
qed

lemma truncated_set_store_counter: "preserves truncated (set_store_counter index c)"
  by (auto simp: preserves_def set_store_counter_def truncated_refl truncated_def suffix_entry_refl
      split: option.splits sum.splits)

lemmas truncated_intros =
  preserves_pbind [where R = truncated, OF _ _ truncated_trans]
  preserves_pthen [where R = truncated, OF _ _ truncated_trans]
  preserves_ret [where R = truncated, OF truncated_refl]
  preserves_raise [where R = truncated, OF truncated_refl]
  preserves_lift [where R = truncated, OF truncated_refl]
  preserves_get_field [where R = truncated, OF truncated_refl]
  preserves_gets [where R = truncated, OF truncated_refl]
  preserves_get_store_counter [where R = truncated, OF truncated_refl]
  truncated_slice_field truncated_set_store_counter

lemma truncated_slice_all: "preserves truncated (slice_all index w)"
  unfolding slice_all_def by (intro truncated_intros)

lemma truncated_pool_clear: "preserves truncated (pool_clear index)"
  unfolding pool_clear_def
  by (intro truncated_intros) (auto split: option.split intro!: truncated_intros truncated_slice_all)

lemma truncated_pool_capacity: "preserves truncated (pool_capacity index)"
  unfolding pool_capacity_def
  by (intro truncated_intros) (auto intro!: truncated_intros truncated_slice_all)

lemma select_index_deterministic:
  "\<not> random st \<Longrightarrow> select_index p st = (Inr p, st)"
  by (simp add: select_index_def pbind_def gets_def ret_def)

lemma store_step_deterministic:
  assumes "\<not> random st" and "0 \<le> p" and "store_step p s stepped st = (locked, out, st')"
  shows "(\<forall>i\<in>set locked. i = p) \<and> unchanged_except (nat p) st st'"
proof (cases stepped)
  case (Inl e)
  with assms show ?thesis
    by (simp add: store_step_def select_index_deterministic unchanged_except_refl)
next
  case (Inr step)
  obtain a next_s r d where step: "step = (a, next_s, r, d)" by (cases step)
  show ?thesis
  proof (cases "get_item (lock_list st) (Some p)")
    case (Inl e)
    with assms Inr step show ?thesis
      by (simp add: store_step_def select_index_deterministic unchanged_except_refl)
  next
    case lock: (Inr u)
    obtain o2 st2 where run: "pool [s] a next_s r d (Some p) st = (o2, st2)"
      by (cases "pool [s] a next_s r d (Some p) st")
    with assms Inr step lock have "locked = [p]" "st' = st2"
      by (simp_all add: store_step_def select_index_deterministic)
    moreover have "unchanged_except (nat p) st st2"
      using frame_pool [OF assms(2)] run by (rule preservesD)
    ultimately show ?thesis by simp
  qed
qed

lemma pbind_Inr:
  "pbind m k st = (Inr v, st') \<longleftrightarrow> (\<exists>u mid. m st = (Inr u, mid) \<and> k u mid = (Inr v, st'))"
  by (auto simp: pbind_def split: prod.splits sum.splits)

lemma pthen_Inr:
  "pthen m k st = (Inr v, st') \<longleftrightarrow> (\<exists>mid. m st = (Inr (), mid) \<and> k mid = (Inr v, st'))"
  by (simp add: pthen_def pbind_Inr)

lemma gets_Inr: "gets f st = (Inr u, st') \<longleftrightarrow> u = f st \<and> st' = st"
  by (auto simp: gets_def)

lemma ret_Inr: "ret v st = (Inr u, st') \<longleftrightarrow> u = v \<and> st' = st"
  by (auto simp: ret_def)

lemma raise_Inr: "raise e st = (Inr u, st') \<longleftrightarrow> False"
  by (simp add: raise_def)

lemma lift_Inr: "lift v st = (Inr u, st') \<longleftrightarrow> v = Inr u \<and> st' = st"
  by (auto simp: lift_def)

lemma get_field_Inr:
  "get_field f index st = (Inr u, st') \<longleftrightarrow> get_item (field_list f st) index = Inr u \<and> st' = st"
  by (auto simp: get_field_def)

lemma set_field_Inr:
  "set_field f index v st = (Inr u, st') \<longleftrightarrow>
     (\<exists>l. set_item (field_list f st) index v = Inr l \<and> st' = field_update f l st)"
  by (auto simp: set_field_def split: sum.splits)

lemmas run_Inr = pbind_Inr pthen_Inr gets_Inr ret_Inr raise_Inr lift_Inr get_field_Inr set_field_Inr

lemma ceil_div_is_ceiling:
  assumes "b \<noteq> 0" and "\<bar>a\<bar> \<le> 2 ^ 53" and "\<bar>b\<bar> \<le> 2 ^ 53"
  shows "ceil_div a b = Inr \<lceil>rat_of_int a / rat_of_int b\<rceil>"
proof -
  have "- (rat_of_int a / rat_of_int b) = rat_of_int (- a) / rat_of_int b" by simp
  then have "\<lfloor>- (rat_of_int a / rat_of_int b)\<rfloor> = (- a) div b"
    by (simp only: floor_divide_of_int_eq)
  then show ?thesis using assms by (simp add: ceil_div_def ceiling_def)
qed

subsection \<open>An append to a segment that was written\<close>

text \<open>
  Whatever the sample and the index, \<^verbatim>\<open>pool\<close> does not return from a segment whose
  state array is written: the \<^verbatim>\<open>else\<close> branch of lines 34 to 38 ends in an exception,
  and lines 39 to 59 are not reached.
\<close>

lemma pool_append_written_raises:
  assumes "get_item (state_pool_list st) index = Inr (Some xs)"
  shows "\<exists>e st'. pool_append s a next_s r done index st = (Inl e, st')"
proof -
  obtain out st' where run: "pool_append s a next_s r done index st = (out, st')"
    by (cases "pool_append s a next_s r done index st")
  show ?thesis
  proof (cases out)
    case (Inl e)
    with run show ?thesis by blast
  next
    case (Inr u)
    with run assms have False
      by (auto simp: pool_append_def run_Inr)
    then show ?thesis ..
  qed
qed

lemma pool_written_raises:
  assumes "get_item (state_pool_list st) index = Inr (Some xs)"
  shows "\<exists>e st'. pool s a next_s r done index st = (Inl e, st')"
proof -
  from pool_append_written_raises [OF assms]
  obtain e st' where "pool_append s a next_s r done index st = (Inl e, st')" by blast
  then show ?thesis by (simp add: pool_def pthen_def pbind_def)
qed

text \<open>
  When the five arrays of the segment are there, the exception is the AttributeError of
  line 38: the state, action, next-state and reward arrays have the sample appended and
  the done array is as it was.
\<close>

lemma append_field_written:
  assumes "get_item (field_list f st) index = Inr (Some xs)"
  shows "\<exists>l. set_item (field_list f st) index (Some (xs @ v)) = Inr l
           \<and> append_field f index v st = (Inr (), field_update f l st)"
  using assms
  by (auto simp: append_field_def pbind_def get_field_def lift_def np_concatenate_def
      set_field_def set_item_def get_item_def split: option.splits)

lemma get_item_set_item:
  "set_item xs index v = Inr l \<Longrightarrow> get_item l index = Inr v"
  by (auto simp: set_item_def get_item_def py_pos_def split: option.splits if_splits)

lemma pool_written_grows:
  assumes seg: "\<And>f. get_item (field_list f st) index = Inr (Some (seg f))"
  shows "\<exists>st'. pool s a next_s r done index st = (Inl AttributeError, st')
          \<and> get_item (state_pool_list st') index = Inr (Some (seg State @ s))
          \<and> get_item (action_pool_list st') index = Inr (Some (seg Action @ [a]))
          \<and> get_item (next_state_pool_list st') index = Inr (Some (seg Next_state @ [next_s]))
          \<and> get_item (reward_pool_list st') index = Inr (Some (seg Reward @ [r]))
          \<and> get_item (done_pool_list st') index = Inr (Some (seg Done))"
proof -
  from append_field_written [OF seg [of State], of s]
  obtain l1 where l1: "set_item (state_pool_list st) index (Some (seg State @ s)) = Inr l1"
    and r1: "append_field State index s st = (Inr (), field_update State l1 st)"
    by auto
  let ?s1 = "field_update State l1 st"
  have "get_item (field_list Action ?s1) index = Inr (Some (seg Action))"
    using seg [of Action] by (simp add: field_list_update)
  from append_field_written [OF this, of "[a]"]
  obtain l2 where l2: "set_item (action_pool_list st) index (Some (seg Action @ [a])) = Inr l2"
    and r2: "append_field Action index [a] ?s1 = (Inr (), field_update Action l2 ?s1)"
    by auto
  let ?s2 = "field_update Action l2 ?s1"
  have "get_item (field_list Next_state ?s2) index = Inr (Some (seg Next_state))"
    using seg [of Next_state] by (simp add: field_list_update)
  from append_field_written [OF this, of "[next_s]"]
  obtain l3 where
    l3: "set_item (next_state_pool_list st) index (Some (seg Next_state @ [next_s])) = Inr l3"
    and r3: "append_field Next_state index [next_s] ?s2 = (Inr (), field_update Next_state l3 ?s2)"
    by auto
  let ?s3 = "field_update Next_state l3 ?s2"
  have "get_item (field_list Reward ?s3) index = Inr (Some (seg Reward))"
    using seg [of Reward] by (simp add: field_list_update)
  from append_field_written [OF this, of "[r]"]
  obtain l4 where l4: "set_item (reward_pool_list st) index (Some (seg Reward @ [r])) = Inr l4"
    and r4: "append_field Reward index [r] ?s3 = (Inr (), field_update Reward l4 ?s3)"
    by auto
  let ?s4 = "field_update Reward l4 ?s3"
  have "pool_append s a next_s r done index st = (Inl AttributeError, ?s4)"
    using seg [of State] r1 r2 r3 r4
    by (simp add: pool_append_def pbind_def pthen_def get_field_def raise_def)
  then have "pool s a next_s r done index st = (Inl AttributeError, ?s4)"
    by (simp add: pool_def pthen_def pbind_def)
  moreover have "get_item (state_pool_list ?s4) index = Inr (Some (seg State @ s))"
    using get_item_set_item [OF l1] by simp
  moreover have "get_item (action_pool_list ?s4) index = Inr (Some (seg Action @ [a]))"
    using get_item_set_item [OF l2] by simp
  moreover have "get_item (next_state_pool_list ?s4) index = Inr (Some (seg Next_state @ [next_s]))"
    using get_item_set_item [OF l3] by simp
  moreover have "get_item (reward_pool_list ?s4) index = Inr (Some (seg Reward @ [r]))"
    using get_item_set_item [OF l4] by simp
  moreover have "get_item (done_pool_list ?s4) index = Inr (Some (seg Done))"
    using seg [of Done] by simp
  ultimately show ?thesis by blast
qed

subsection \<open>\<^verbatim>\<open>get_pool\<close> and the selection of the index\<close>

lemma those_no_None: "None \<notin> set xs \<Longrightarrow> those xs = Some (map the xs)"
proof (induction xs)
  case Nil
  then show ?case by simp
next
  case (Cons x xs)
  then show ?case by (cases x) simp_all
qed

lemma concatenate_all_written:
  "xs \<noteq> [] \<Longrightarrow> None \<notin> set xs \<Longrightarrow> concatenate_all xs = Inr (concat (map the xs))"
  by (simp add: concatenate_all_def those_no_None)

lemma concat_position:
  "j < length xss \<Longrightarrow> t < length (xss ! j)
     \<Longrightarrow> concat xss ! (sum_list (map length (take j xss)) + t) = xss ! j ! t"
proof (induction xss arbitrary: j)
  case Nil
  then show ?case by simp
next
  case (Cons xs xss)
  show ?case
  proof (cases j)
    case 0
    with Cons.prems show ?thesis by (simp add: nth_append)
  next
    case (Suc j')
    with Cons.prems have "concat xss ! (sum_list (map length (take j' xss)) + t) = xss ! j' ! t"
      by (intro Cons.IH) simp_all
    with Suc show ?thesis by (simp add: nth_append add.assoc)
  qed
qed

lemma select_index_unset:
  assumes "random st" and "get_item (state_pool_list st) (Some p) = Inr None"
    and "set_item (inverse_len st) (Some p) 1 = Inr ws"
  shows "select_index p st = (Inr p, st\<lparr>inverse_len := ws\<rparr>)"
  using assms
  by (simp add: select_index_def pbind_def pthen_def gets_def get_field_def set_inverse_len_def ret_def)

lemma select_index_written_raises:
  assumes "random st" and "get_item (state_pool_list st) (Some p) = Inr (Some own)"
  shows "select_index p st = (Inl AttributeError, st)"
  using assms
  by (simp add: select_index_def pbind_def gets_def get_field_def raise_def)

subsection \<open>Evaluation of the examples\<close>

lemma replicate_2: "replicate 2 x = [x, x]"
  by (simp add: numeral_2_eq_2)

lemmas run_defs =
  populated_def init_def pool_def pool_append_def pool_evict_def pool_clear_def pool_capacity_def
  append_field_def slice_all_def slice_field_def
  pthen_def pbind_def ret_def raise_def lift_def gets_def
  get_field_def set_field_def get_store_counter_def set_store_counter_def set_inverse_len_def
  get_item_def set_item_def py_pos_def py_len_def py_slice_from_def np_concatenate_def ceil_div_def
  replicate_2

lemmas step_defs = run_defs store_step_def select_index_def

section \<open>The claims\<close>

subsection \<open>C1: the five arrays of a segment keep one length\<close>

text \<open>
  Claim C1: between two calls of \<^verbatim>\<open>pool\<close> the five arrays of every segment have the
  same length, and every operation keeps it so. The code does not: on a segment that was
  already written, lines 34 to 37 append to the state, action, next-state and reward
  arrays, and line 38 raises AttributeError (\<^verbatim>\<open>self.done_pool\<close> does not exist)
  before the done array is written. For one worker the first sample leaves the lengths
  1, 1, 1, 1, 1 and the second one 2, 2, 2, 2, 1.
\<close>

theorem second_append_breaks_alignment:
  "(let st0 = populated 1 4 None None None False :: nat Pool;
        (out1, st1) = pool [10] 11 12 13 14 (Some 0) st0;
        (out2, st2) = pool [20] 21 22 23 24 (Some 0) st1
    in out1 = Inr () \<and> out2 = Inl AttributeError
       \<and> map (\<lambda>f. map_option length (field_list f st1 ! 0)) [State, Action, Next_state, Reward, Done]
           = [Some 1, Some 1, Some 1, Some 1, Some 1]
       \<and> map (\<lambda>f. map_option length (field_list f st2 ! 0)) [State, Action, Next_state, Reward, Done]
           = [Some 2, Some 2, Some 2, Some 2, Some 1])"
  by (simp add: run_defs)

subsection \<open>C2: an append writes all five arrays or none\<close>

text \<open>
  Claim C2: a call of the append either adds one trailing element to all five arrays of the
  segment or leaves all five as they were. The code applies it in part: the second sample
  \<open>(20, 21, 22, 23, 24)\<close> on the segment that holds \<open>(10, 11, 12, 13, 14)\<close> ends in
  AttributeError with four arrays extended and the done array still \<open>[14]\<close>.
\<close>

theorem second_append_is_partial:
  "pool [20] 21 22 23 24 (Some 0)
     ((populated 1 4 None None None False)
        \<lparr>state_pool_list := [Some [10]], action_pool_list := [Some [11]],
         next_state_pool_list := [Some [12]], reward_pool_list := [Some [13]],
         done_pool_list := [Some [14 :: nat]]\<rparr>)
   = (Inl AttributeError,
      (populated 1 4 None None None False)
        \<lparr>state_pool_list := [Some [10, 20]], action_pool_list := [Some [11, 21]],
         next_state_pool_list := [Some [12, 22]], reward_pool_list := [Some [13, 23]],
         done_pool_list := [Some [14]]\<rparr>)"
  by (simp add: run_defs)

subsection \<open>C3: what the constructor leaves\<close>

text \<open>
  Claim C3: after construction every worker index has a segment entry in the unset state
  and, with \<^verbatim>\<open>clearing_freq\<close>, a store counter equal to zero, so that the first append
  finds them. The code builds the five lists and \<^verbatim>\<open>store_counter\<close> as empty lists
  (only \<^verbatim>\<open>inverse_len\<close> gets an entry per worker): there is no entry at any index, and
  the first append at any index raises IndexError on line 27 and changes nothing.
\<close>

theorem init_has_no_segments:
  "field_list f (init procs psize w cf w' rnd) = []
   \<and> store_counter (init procs psize w (Some c) w' rnd) = Some []
   \<and> inverse_len (init procs psize w cf w' rnd) = replicate (nat procs) 0
   \<and> pool s a next_s r done (Some i) (init procs psize w cf w' rnd)
       = (Inl IndexError, init procs psize w cf w' rnd)"
  by (cases f) (simp_all add: init_def pool_def pool_append_def pthen_def pbind_def get_field_def
      get_item_def py_pos_Nil)

subsection \<open>C4: the store counter and the periodic clearing\<close>

text \<open>
  Claim C4: with \<^verbatim>\<open>clearing_freq\<close> set, every append to a segment adds one to its store
  counter, and a counter that reaches a multiple of \<^verbatim>\<open>clearing_freq\<close> drops the oldest
  entries before the capacity check. In the code an append to a segment that was already
  written never reaches line 40: line 38 raises first. With \<^verbatim>\<open>clearing_freq = 2\<close> and
  \<^verbatim>\<open>window_size_ = 1\<close> the first sample sets the counter to 1; the second sample leaves
  it at 1 and clears nothing, and the state array holds both rows.
\<close>

theorem second_append_skips_counter:
  "(let st0 = populated 1 4 None (Some 2) (Some 1) False :: nat Pool;
        (out1, st1) = pool [10] 11 12 13 14 (Some 0) st0;
        (out2, st2) = pool [20] 21 22 23 24 (Some 0) st1
    in store_counter st0 = Some [0]
       \<and> out1 = Inr () \<and> store_counter st1 = Some [1]
       \<and> out2 = Inl AttributeError \<and> store_counter st2 = Some [1]
       \<and> state_pool_list st2 = [Some [10, 20]])"
  by (simp add: run_defs)

subsection \<open>C5: the capacity check\<close>

text \<open>
  Claim C5: after each append and eviction the length of a segment is at most
  \<open>ceil(pool_size / processes) + window_size - 1\<close>, with one truncation of
  \<open>window_size\<close> first entries (one entry when \<^verbatim>\<open>window_size\<close> is not set) whenever the
  length exceeded the capacity, so that a segment does not grow without bound. In the code
  the capacity check of lines 47 to 59 is not reached by an append to a segment that was
  written: line 38 raises first, after the state array has grown by the sample. One worker,
  \<^verbatim>\<open>pool_size = 1\<close>, no \<^verbatim>\<open>window_size\<close>: the capacity is 1 and the bound is
  \<open>1 + 1 - 1\<close>. The first sample returns with 1 row; the second and the third raise and
  leave 2 and 3 rows.
\<close>

theorem written_segment_outgrows_capacity:
  "(let st0 = populated 1 1 None None None False :: nat Pool;
        (out1, st1) = pool [10] 11 12 13 14 (Some 0) st0;
        (out2, st2) = pool [20] 21 22 23 24 (Some 0) st1;
        (out3, st3) = pool [30] 31 32 33 34 (Some 0) st2
    in ceil_div (pool_size st0) (processes st0) = Inr 1 \<and> window_size st0 = None
       \<and> out1 = Inr () \<and> state_pool_list st1 = [Some [10]]
       \<and> out2 = Inl AttributeError \<and> state_pool_list st2 = [Some [10, 20]]
       \<and> out3 = Inl AttributeError \<and> state_pool_list st3 = [Some [10, 20, 30]])"
  by (simp add: run_defs)

subsection \<open>C6: a truncation removes first rows only\<close>

text \<open>
  Claim C6: the truncations of the eviction policy, the periodic clearing and the capacity
  check, remove a prefix of each array and nothing else, and keep the order of what is
  left. Whatever the outcome of a stage, or of the two in sequence, every array of the
  state it leaves is a suffix of the array that was at the same place, for each of the five
  lists \<open>f\<close>; an entry that was \<^verbatim>\<open>None\<close> is still \<^verbatim>\<open>None\<close>.
\<close>

theorem eviction_drops_prefix_only:
  assumes "pool_clear index st = (out, st') \<or> pool_capacity index st = (out, st')
             \<or> pool_evict index st = (out, st')"
  shows "list_all2 (rel_option (\<lambda>old new. suffix new old)) (field_list f st) (field_list f st')"
proof -
  have "preserves truncated (pool_evict index)"
    unfolding pool_evict_def by (intro truncated_intros truncated_pool_clear truncated_pool_capacity)
  with assms have "truncated st st'"
    using truncated_pool_clear [of index] truncated_pool_capacity [of index]
    by (auto dest: preservesD)
  then show ?thesis by (simp add: truncated_def)
qed

theorem eviction_drops_prefix_only_witness:
  "pool_evict (Some 0)
     ((populated 1 4 None (Some 2) (Some 1) False)
        \<lparr>state_pool_list := [Some [10, 20]], action_pool_list := [Some [11, 21]],
         next_state_pool_list := [Some [12, 22]], reward_pool_list := [Some [13, 23]],
         done_pool_list := [Some [14, 24 :: nat]], store_counter := Some [1]\<rparr>)
   = (Inr (),
      (populated 1 4 None (Some 2) (Some 1) False)
        \<lparr>state_pool_list := [Some [20]], action_pool_list := [Some [21]],
         next_state_pool_list := [Some [22]], reward_pool_list := [Some [23]],
         done_pool_list := [Some [24]], store_counter := Some [2]\<rparr>)
   \<and> list_all2 (rel_option (\<lambda>old new. suffix new old)) [Some [10, 20 :: nat]] [Some [20]]"
proof -
  let ?st = "(populated 1 4 None (Some 2) (Some 1) False)
        \<lparr>state_pool_list := [Some [10, 20]], action_pool_list := [Some [11, 21]],
         next_state_pool_list := [Some [12, 22]], reward_pool_list := [Some [13, 23]],
         done_pool_list := [Some [14, 24 :: nat]], store_counter := Some [1]\<rparr>"
  let ?st' = "(populated 1 4 None (Some 2) (Some 1) False)
        \<lparr>state_pool_list := [Some [20]], action_pool_list := [Some [21]],
         next_state_pool_list := [Some [22]], reward_pool_list := [Some [23]],
         done_pool_list := [Some [24 :: nat]], store_counter := Some [2]\<rparr>"
  have run: "pool_evict (Some 0) ?st = (Inr (), ?st')"
    by (simp add: run_defs)
  then have "pool_clear (Some 0) ?st = (Inr (), ?st') \<or> pool_capacity (Some 0) ?st = (Inr (), ?st')
      \<or> pool_evict (Some 0) ?st = (Inr (), ?st')"
    by (intro disjI2)
  from eviction_drops_prefix_only [OF this, of State] run show ?thesis by simp
qed

subsection \<open>C7: the deterministic mode\<close>

text \<open>
  Claim C7: with \<^verbatim>\<open>random = False\<close> worker \<open>p\<close> selects the index \<open>p\<close> in every
  iteration of its loop: it acquires no lock but that of \<open>p\<close> and writes to no segment
  but \<open>p\<close>. Along any sequence of outcomes of the action selection and the
  environment, raised exceptions among them, and whatever the outcome of the loop, every
  lock acquired is \<open>p\<close> and the state differs from the initial one at position \<open>p\<close>
  of the lists at most.
\<close>

theorem deterministic_worker_own_segment:
  assumes "\<not> random st" and "0 \<le> p"
    and "store_in_parallel truthy p s steps st = (locked, out, st')"
  shows "(\<forall>i\<in>set locked. i = p) \<and> unchanged_except (nat p) st st'"
  using assms
proof (induction steps arbitrary: s st locked out st')
  case Nil
  then show ?case by (simp add: unchanged_except_refl)
next
  case (Cons stepped rest)
  obtain l1 o1 st1 where one: "store_step p s stepped st = (l1, o1, st1)"
    by (cases "store_step p s stepped st")
  from store_step_deterministic [OF Cons.prems(1,2) one]
  have l1: "\<forall>i\<in>set l1. i = p" and f1: "unchanged_except (nat p) st st1" by simp_all
  show ?case
  proof (cases "\<exists>u a next_s r d. o1 = Inr u \<and> stepped = Inr (a, next_s, r, d) \<and> \<not> truthy d")
    case False
    have "locked = l1 \<and> st' = st1"
    proof (cases o1)
      case (Inl e)
      with Cons.prems(3) one show ?thesis by simp
    next
      case (Inr u)
      show ?thesis
      proof (cases stepped)
        case (Inl e)
        with Cons.prems(3) one Inr show ?thesis by simp
      next
        case step: (Inr tuple)
        obtain a next_s r d where tuple: "tuple = (a, next_s, r, d)" by (cases tuple)
        with False Inr step have "truthy d" by simp
        with Cons.prems(3) one Inr step tuple show ?thesis by simp
      qed
    qed
    with l1 f1 show ?thesis by simp
  next
    case True
    then obtain u a next_s r d where o1: "o1 = Inr u" and stepped: "stepped = Inr (a, next_s, r, d)"
      and go: "\<not> truthy d"
      by blast
    obtain l2 o2 st2 where more: "store_in_parallel truthy p next_s rest st1 = (l2, o2, st2)"
      by (cases "store_in_parallel truthy p next_s rest st1")
    from Cons.prems(3) one o1 stepped go more have res: "locked = l1 @ l2" "st' = st2"
      by simp_all
    from f1 Cons.prems(1) have "\<not> random st1" by (simp add: unchanged_except_def)
    from Cons.IH [OF this Cons.prems(2) more]
    have "\<forall>i\<in>set l2. i = p" and "unchanged_except (nat p) st1 st2" by simp_all
    with l1 f1 res show ?thesis by (auto intro: unchanged_except_trans)
  qed
qed

text \<open>
  Worker 1 of two, with an action selection supplied: the first iteration writes the
  sample to segment 1, the second one raises on line 38. With the class as it stands the
  first iteration raises on line 77 and nothing is locked or written.
\<close>

theorem deterministic_worker_own_segment_witness:
  "\<not> random (populated 2 4 None None None False :: nat Pool) \<and> (0 :: int) \<le> 1
   \<and> store_in_parallel (\<lambda>d. d \<noteq> 0) 1 10 [Inr (11, 12, 13, 0), Inr (21, 22, 23, 1)]
        (populated 2 4 None None None False)
       = ([1, 1], Inl AttributeError,
          (populated 2 4 None None None False)
            \<lparr>state_pool_list := [None, Some [10, 12]], action_pool_list := [None, Some [11, 21]],
             next_state_pool_list := [None, Some [12, 22]], reward_pool_list := [None, Some [13, 23]],
             done_pool_list := [None, Some [0 :: nat]]\<rparr>)
   \<and> set [1, 1 :: int] = {1}
   \<and> unchanged_except (nat 1) (populated 2 4 None None None False)
        ((populated 2 4 None None None False)
            \<lparr>state_pool_list := [None, Some [10, 12]], action_pool_list := [None, Some [11, 21]],
             next_state_pool_list := [None, Some [12, 22]], reward_pool_list := [None, Some [13, 23]],
             done_pool_list := [None, Some [0 :: nat]]\<rparr>)
   \<and> store_in_parallel (\<lambda>d. d \<noteq> 0) 1 10 [Inl AttributeError]
        (populated 2 4 None None None False :: nat Pool)
       = ([], Inl AttributeError, populated 2 4 None None None False)"
proof -
  have det: "\<not> random (populated 2 4 None None None False :: nat Pool)"
    by (simp add: populated_def init_def)
  have p: "(0 :: int) \<le> 1" by simp
  have run: "store_in_parallel (\<lambda>d. d \<noteq> 0) 1 10 [Inr (11, 12, 13, 0), Inr (21, 22, 23, 1)]
        (populated 2 4 None None None False)
       = ([1, 1], Inl AttributeError,
          (populated 2 4 None None None False)
            \<lparr>state_pool_list := [None, Some [10, 12]], action_pool_list := [None, Some [11, 21]],
             next_state_pool_list := [None, Some [12, 22]], reward_pool_list := [None, Some [13, 23]],
             done_pool_list := [None, Some [0 :: nat]]\<rparr>)"
    by (simp add: step_defs)
  have bare: "store_in_parallel (\<lambda>d. d \<noteq> 0) 1 10 [Inl AttributeError]
        (populated 2 4 None None None False :: nat Pool)
       = ([], Inl AttributeError, populated 2 4 None None None False)"
    by (simp add: step_defs)
  from deterministic_worker_own_segment [OF det p run] det run bare show ?thesis by simp
qed

subsection \<open>C8: the probabilistic mode\<close>

text \<open>
  Claim C8: in the probabilistic mode a worker whose own segment is unset selects its own
  index and sets the weight of that segment to 1; otherwise the index is drawn with the
  probabilities \<open>inverse_len / sum(inverse_len)\<close> and the weight of the chosen segment
  becomes \<open>1 / (new_len + 1)\<close>. The code does the first part. In the second part line 72
  calls \<^verbatim>\<open>prob.numpy()\<close> on an array of numpy and raises AttributeError: no index is
  drawn and no weight is written. Worker 0 of a pool of one worker, with an action
  selection supplied: the first iteration claims segment 0 with weight 1 and writes the
  sample; the second iteration raises in the selection, before any lock, and leaves the
  state as it was.
\<close>

theorem probabilistic_draw_raises:
  "(let st0 = populated 1 4 None None None True :: nat Pool;
        (locked1, out1, st1) = store_step 0 10 (Inr (11, 12, 13, 14)) st0;
        (locked2, out2, st2) = store_step 0 20 (Inr (21, 22, 23, 24)) st1
    in locked1 = [0] \<and> out1 = Inr () \<and> inverse_len st1 = [1]
       \<and> state_pool_list st1 = [Some [10]]
       \<and> select_index 0 st1 = (Inl AttributeError, st1)
       \<and> locked2 = [] \<and> out2 = Inl AttributeError \<and> st2 = st1)"
  by (simp add: step_defs)

subsection \<open>C9: \<^verbatim>\<open>get_pool\<close>\<close>

text \<open>
  Claim C9: when every segment has been written, \<^verbatim>\<open>get_pool\<close> returns five flat
  sequences; each has the sum of the lengths of the segments of its list, and holds the
  rows in the order of the worker index and, within a segment, in the order of the
  appends: row \<open>t\<close> of segment \<open>j\<close> stands after all rows of the segments before
  \<open>j\<close>, at offset \<open>t\<close>. The lists hold at least one segment.
\<close>

theorem get_pool_concatenates:
  assumes "\<forall>f. field_list f st \<noteq> [] \<and> None \<notin> set (field_list f st)"
  shows "get_pool st =
           Inr (concat (map the (state_pool_list st)), concat (map the (action_pool_list st)),
                concat (map the (next_state_pool_list st)), concat (map the (reward_pool_list st)),
                concat (map the (done_pool_list st)))
       \<and> (\<forall>f. length (concat (map the (field_list f st)))
                 = sum_list (map (\<lambda>seg. length (the seg)) (field_list f st)))
       \<and> (\<forall>f j t. j < length (field_list f st) \<longrightarrow> t < length (the (field_list f st ! j)) \<longrightarrow>
             concat (map the (field_list f st))
               ! (sum_list (map (\<lambda>seg. length (the seg)) (take j (field_list f st))) + t)
             = the (field_list f st ! j) ! t)"
proof (intro conjI allI impI)
  from assms have ok: "field_list f st \<noteq> []" "None \<notin> set (field_list f st)" for f
    by simp_all
  show "get_pool st =
           Inr (concat (map the (state_pool_list st)), concat (map the (action_pool_list st)),
                concat (map the (next_state_pool_list st)), concat (map the (reward_pool_list st)),
                concat (map the (done_pool_list st)))"
    using ok [of State] ok [of Action] ok [of Next_state] ok [of Reward] ok [of Done]
    by (simp add: get_pool_def concatenate_all_written)
next
  fix f
  show "length (concat (map the (field_list f st)))
          = sum_list (map (\<lambda>seg. length (the seg)) (field_list f st))"
    by (simp add: length_concat comp_def)
next
  fix f j t
  assume j: "j < length (field_list f st)" and t: "t < length (the (field_list f st ! j))"
  let ?xss = "map the (field_list f st)"
  from j t have "concat ?xss ! (sum_list (map length (take j ?xss)) + t) = ?xss ! j ! t"
    by (intro concat_position) simp_all
  with j show "concat (map the (field_list f st))
               ! (sum_list (map (\<lambda>seg. length (the seg)) (take j (field_list f st))) + t)
             = the (field_list f st ! j) ! t"
    by (simp add: take_map comp_def)
qed

theorem get_pool_concatenates_witness:
  "(\<forall>f. field_list f
          ((populated 2 4 None None None False)
             \<lparr>state_pool_list := [Some [10, 20], Some [30]],
              action_pool_list := [Some [11, 21], Some [31]],
              next_state_pool_list := [Some [12, 22], Some [32]],
              reward_pool_list := [Some [13, 23], Some [33]],
              done_pool_list := [Some [14, 24], Some [34 :: nat]]\<rparr>) \<noteq> []
        \<and> None \<notin> set (field_list f
          ((populated 2 4 None None None False)
             \<lparr>state_pool_list := [Some [10, 20], Some [30]],
              action_pool_list := [Some [11, 21], Some [31]],
              next_state_pool_list := [Some [12, 22], Some [32]],
              reward_pool_list := [Some [13, 23], Some [33]],
              done_pool_list := [Some [14, 24], Some [34 :: nat]]\<rparr>)))
   \<and> get_pool
          ((populated 2 4 None None None False)
             \<lparr>state_pool_list := [Some [10, 20], Some [30]],
              action_pool_list := [Some [11, 21], Some [31]],
              next_state_pool_list := [Some [12, 22], Some [32]],
              reward_pool_list := [Some [13, 23], Some [33]],
              done_pool_list := [Some [14, 24], Some [34 :: nat]]\<rparr>)
       = Inr ([10, 20, 30], [11, 21, 31], [12, 22, 32], [13, 23, 33], [14, 24, 34])"
proof -
  let ?st = "(populated 2 4 None None None False)
             \<lparr>state_pool_list := [Some [10, 20], Some [30]],
              action_pool_list := [Some [11, 21], Some [31]],
              next_state_pool_list := [Some [12, 22], Some [32]],
              reward_pool_list := [Some [13, 23], Some [33]],
              done_pool_list := [Some [14, 24], Some [34 :: nat]]\<rparr>"
  have h: "\<forall>f. field_list f ?st \<noteq> [] \<and> None \<notin> set (field_list f ?st)"
    by (simp add: all_field)
  from get_pool_concatenates [OF h] h show ?thesis by simp
qed

subsection \<open>C10: an append touches one index\<close>

text \<open>
  Claim C10: a call \<^verbatim>\<open>pool(s, a, next_s, r, done, index=i)\<close> with \<open>0 \<le> i\<close> leaves the
  five arrays of every segment \<open>j \<noteq> i\<close> and the store counter of every \<open>j \<noteq> i\<close> as
  they were. This holds when the call returns and also when it raises.
\<close>

theorem pool_frame:
  assumes "0 \<le> i" and "pool s a next_s r done (Some i) st = (out, st')"
  shows "unchanged_except (nat i) st st'"
  using frame_pool [OF assms(1)] assms(2) by (rule preservesD)

theorem pool_frame_witness:
  "(0 :: int) \<le> 0
   \<and> pool [10] 11 12 13 14 (Some 0) (populated 2 4 None None None False)
       = (Inr (),
          (populated 2 4 None None None False)
            \<lparr>state_pool_list := [Some [10], None], action_pool_list := [Some [11], None],
             next_state_pool_list := [Some [12], None], reward_pool_list := [Some [13], None],
             done_pool_list := [Some [14 :: nat], None]\<rparr>)
   \<and> unchanged_except (nat 0) (populated 2 4 None None None False)
        ((populated 2 4 None None None False)
            \<lparr>state_pool_list := [Some [10], None], action_pool_list := [Some [11], None],
             next_state_pool_list := [Some [12], None], reward_pool_list := [Some [13], None],
             done_pool_list := [Some [14 :: nat], None]\<rparr>)"
proof -
  have run: "pool [10] 11 12 13 14 (Some 0) (populated 2 4 None None None False)
       = (Inr (),
          (populated 2 4 None None None False)
            \<lparr>state_pool_list := [Some [10], None], action_pool_list := [Some [11], None],
             next_state_pool_list := [Some [12], None], reward_pool_list := [Some [13], None],
             done_pool_list := [Some [14 :: nat], None]\<rparr>)"
    by (simp add: run_defs)
  have "(0 :: int) \<le> 0" by simp
  from pool_frame [OF this run] run show ?thesis by simp
qed

end
